theory Spec2Isabelle
  imports Complex_Main "HOL-Library.Sublist"
begin

section \<open>ShopFlow: checkout validation, order writing and the cart reducer\<close>

text \<open>
  The development embeds three pieces of the storefront:
  \<^item> the route handler \<open>POST /api/checkout/validate\<close> (the checkout validator),
  \<^item> \<open>handleSubmit\<close> of \<open>CheckoutClient.tsx\<close> (the order writer),
  \<^item> \<open>reducer\<close> of \<open>CartContext.tsx\<close> (the cart state holder).

  JavaScript numbers are IEEE-754 doubles. A finite double is modelled as the rational it
  denotes, and every arithmetic operation of the handler rounds its exact result to the
  nearest double.
\<close>

subsection \<open>Double-precision numbers\<close>

text \<open>
  The number of binary digits of a positive integer (0 for the others).
\<close>

function bit_length :: "int \<Rightarrow> nat" where
  "bit_length n = (if n \<le> 0 then 0 else Suc (bit_length (n div 2)))"
  by pat_completeness auto
termination
  by (relation "measure nat") auto

declare bit_length.simps [simp del]

definition pow2 :: "int \<Rightarrow> rat" where
  "pow2 e = (if 0 \<le> e then 2 ^ nat e else 1 / 2 ^ nat (- e))"

text \<open>
  The binary exponent of a positive number \<open>x\<close>: the \<open>e\<close> with
  \<open>2^e \<le> x < 2^(e+1)\<close>.
\<close>

definition log2_floor :: "rat \<Rightarrow> int" where
  "log2_floor x =
     (if 1 \<le> x then int (bit_length \<lfloor>x\<rfloor>) - 1
      else - int (bit_length (\<lceil>1 / x\<rceil> - 1)))"

definition round_half_even :: "rat \<Rightarrow> int" where
  "round_half_even m =
     (let f = \<lfloor>m\<rfloor>; r = m - of_int f
      in if r < 1 / 2 then f else if 1 / 2 < r then f + 1 else if even f then f else f + 1)"

text \<open>
  The double nearest to \<open>x\<close>: 53 significant binary digits, a tie going to the even
  significand. One unit in the last place of a number with exponent \<open>e\<close> is
  \<open>2^(e-52)\<close>. The exponent is not bounded here: there is no overflow to infinity and
  there are no subnormal numbers, which the prices (two decimals, below \<open>10^8\<close>) and the
  stocks (32-bit integers) of the schema stay far away from. \<open>NaN\<close> and the infinities
  are not values.
\<close>

definition fl :: "rat \<Rightarrow> rat" where
  "fl x =
     (if x = 0 then 0
      else (let ulp = pow2 (log2_floor \<bar>x\<bar>) / 2 ^ 52
            in sgn x * of_int (round_half_even (\<bar>x\<bar> / ulp)) * ulp))"

text \<open>The relative error of one rounding is at most \<open>2^-53\<close>.\<close>

definition unit_roundoff :: rat where
  "unit_roundoff = 1 / 2 ^ 53"

text \<open>The operators \<open>+\<close>, \<open>*\<close> and \<open>/\<close> on doubles.\<close>

definition fadd :: "rat \<Rightarrow> rat \<Rightarrow> rat" where
  "fadd x y = fl (x + y)"

definition fmul :: "rat \<Rightarrow> rat \<Rightarrow> rat" where
  "fmul x y = fl (x * y)"

definition fdiv :: "rat \<Rightarrow> rat \<Rightarrow> rat" where
  "fdiv x y = fl (x / y)"

subsection \<open>JavaScript values of a parsed JSON body\<close>

text \<open>
  A field of a parsed entry is any JSON value, or \<open>undefined\<close> when the field is absent.
  A number is the double its JSON text was parsed to. An object is the list of its
  members.
\<close>

datatype jsval =
    JUndefined
  | JNull
  | JBool bool
  | JNum rat
  | JStr string
  | JArray "jsval list"
  | JObject "(string \<times> jsval) list"

text \<open>
  \<open>!v\<close>: the falsy values are undefined, null, false, 0 and the empty string; every
  array and every object is truthy.
\<close>

fun falsy :: "jsval \<Rightarrow> bool" where
  "falsy JUndefined = True"
| "falsy JNull = True"
| "falsy (JBool b) = (\<not> b)"
| "falsy (JNum n) = (n = 0)"
| "falsy (JStr s) = (s = [])"
| "falsy (JArray vs) = False"
| "falsy (JObject ms) = False"

text \<open>\<open>typeof v === 'number'\<close>.\<close>

fun is_number :: "jsval \<Rightarrow> bool" where
  "is_number (JNum n) = True"
| "is_number v = False"

text \<open>\<open>Number.isInteger(v)\<close>: false for everything that is not a number.\<close>

fun Number_isInteger :: "jsval \<Rightarrow> bool" where
  "Number_isInteger (JNum n) = (of_int \<lfloor>n\<rfloor> = n)"
| "Number_isInteger v = False"

text \<open>The numeric value of a field that has passed the \<open>typeof\<close> test.\<close>

fun num_of :: "jsval \<Rightarrow> rat" where
  "num_of (JNum n) = n"
| "num_of v = 0"

text \<open>
  \<open>Math.round(x)\<close>: the nearest integer, a tie going towards plus infinity. The result
  is exact: it is a double whenever \<open>x\<close> is one.
\<close>

definition Math_round :: "rat \<Rightarrow> int" where
  "Math_round x = \<lfloor>x + 1 / 2\<rfloor>"

subsection \<open>The product collection\<close>

text \<open>
  A row of \<open>public.products\<close>, with the columns the handler selects
  (\<open>id, name, price, stock\<close>). The schema declares \<open>price numeric(10,2) CHECK (price >= 0)\<close>
  and \<open>stock integer CHECK (stock >= 0)\<close>. The other columns (description, image,
  category, creation time) are read by none of the functions embedded here. \<open>price\<close> is
  the stored decimal; the handler receives it as a JSON number, that is as the nearest
  double. The same record stands for the product snapshot a cart entry holds.
\<close>

record Product =
  id_prod :: string
  name :: string
  price :: rat
  stock :: int

text \<open>
  The product collection as the handler reaches it. The client library is not among the
  sources, so the collection is the parameter that tells, for every value handed to
  \<open>.eq('id', v)\<close>, which row \<open>.single()\<close> yields as \<open>data\<close>, if any. The library
  writes \<open>v\<close> into the query as text, so a value that is not a string may reach a row
  as well (an array holding one id reaches the row of that id).
\<close>

type_synonym products = "jsval \<rightharpoonup> Product"

text \<open>The two CHECK constraints of the schema, for every row.\<close>

definition products_checks :: "products \<Rightarrow> bool" where
  "products_checks db = (\<forall>p \<in> ran db. 0 \<le> price p \<and> 0 \<le> stock p)"

text \<open>The scale of \<open>numeric(10,2)\<close>: every stored price has two decimals.\<close>

definition products_numeric :: "products \<Rightarrow> bool" where
  "products_numeric db = (\<forall>p \<in> ran db. of_int \<lfloor>price p * 100\<rfloor> = price p * 100)"

text \<open>
  \<open>supabase.from('products').select(...).eq('id', v).single()\<close>: the row the
  collection yields for \<open>v\<close>, or \<open>null\<close>.
\<close>

definition single :: "products \<Rightarrow> jsval \<Rightarrow> Product option" where
  "single db v = db v"

subsection \<open>The checkout validator\<close>

text \<open>
  An entry of \<open>body.items\<close>: an object, as the declared type \<open>CartItemPayload[]\<close> has
  it, each of whose two fields holds any JSON value or is absent. An entry that is a
  number, a string or a boolean behaves as an object without the two fields. An entry that
  is \<open>null\<close> is not covered: reading its field throws, and the \<open>catch\<close> answers 500.
\<close>

record CartItemPayload =
  product_id :: jsval
  quantity :: jsval

text \<open>
  The request body as the handler sees it: \<open>request.json()\<close> throws (or the body is
  \<open>null\<close>, so that reading \<open>body.items\<close> throws), \<open>body.items\<close> is not an array, or
  it is an array of entries.
\<close>

datatype req_body = JsonThrows | NotArray | ItemList "CartItemPayload list"

text \<open>
  The error messages, with the holes of the template strings as arguments:
  \<open>Product not found: ${item.product_id}\<close> and
  \<open>Insufficient stock for "${product.name}". Available: ${product.stock}, Requested: ${item.quantity}\<close>.
\<close>

datatype message =
    AuthenticationRequired
  | CartIsEmpty
  | InvalidItemInCart
  | ProductNotFound jsval
  | InsufficientStock string int rat
  | InternalServerError

text \<open>The JSON of a response: \<open>{ error }\<close> or \<open>{ valid: true, serverTotal }\<close>.\<close>

datatype payload = Error message | Valid rat

text \<open>\<open>NextResponse.json(payload, { status })\<close>; the status is 200 when none is given.\<close>

datatype response = Response nat payload

text \<open>
  The sanity check at the head of the loop body; \<open>True\<close> when the entry is rejected.
\<close>

definition invalid_item :: "CartItemPayload \<Rightarrow> bool" where
  "invalid_item item =
     (falsy (product_id item) \<or> \<not> is_number (CartItemPayload.quantity item)
      \<or> \<not> Number_isInteger (CartItemPayload.quantity item)
      \<or> num_of (CartItemPayload.quantity item) < 1)"

text \<open>
  The \<open>for (const item of body.items)\<close> loop, from the running \<open>serverTotal\<close>. It
  returns the early response or the final total, together with the ids it has queried the
  product collection for, in order. \<open>Number(product.price)\<close> is the double nearest to
  the stored price; the product and the sum are double operations.
\<close>

fun POST_loop :: "products \<Rightarrow> CartItemPayload list \<Rightarrow> rat \<Rightarrow> (response + rat) \<times> jsval list" where
  "POST_loop db [] serverTotal = (Inr serverTotal, [])"
| "POST_loop db (item # rest) serverTotal =
     (if invalid_item item then (Inl (Response 400 (Error InvalidItemInCart)), [])
      else
        (case single db (product_id item) of
           None \<Rightarrow> (Inl (Response 404 (Error (ProductNotFound (product_id item)))), [product_id item])
         | Some product \<Rightarrow>
             if of_int (stock product) < num_of (CartItemPayload.quantity item)
             then (Inl (Response 409 (Error (InsufficientStock (Product.name product) (stock product)
                                               (num_of (CartItemPayload.quantity item))))),
                   [product_id item])
             else
               (case POST_loop db rest
                       (fadd serverTotal
                          (fmul (fl (Product.price product))
                                (num_of (CartItemPayload.quantity item)))) of
                  (r, queried) \<Rightarrow> (r, product_id item # queried))))"

text \<open>
  The handler. \<open>user\<close> is what \<open>supabase.auth.getUser()\<close> resolves to (\<open>None\<close> for
  \<open>null\<close>). The result is the response and the ids queried in the product collection.
  The last step is \<open>Math.round(serverTotal * 100) / 100\<close>, the product and the quotient
  being double operations.
\<close>

definition POST :: "string option \<Rightarrow> products \<Rightarrow> req_body \<Rightarrow> response \<times> jsval list" where
  "POST user db body =
     (case user of
        None \<Rightarrow> (Response 401 (Error AuthenticationRequired), [])
      | Some u \<Rightarrow>
          (case body of
             JsonThrows \<Rightarrow> (Response 500 (Error InternalServerError), [])
           | NotArray \<Rightarrow> (Response 400 (Error CartIsEmpty), [])
           | ItemList items \<Rightarrow>
               if items = [] then (Response 400 (Error CartIsEmpty), [])
               else
                 (case POST_loop db items 0 of
                    (Inl r, queried) \<Rightarrow> (r, queried)
                  | (Inr serverTotal, queried) \<Rightarrow>
                      (Response 200
                         (Valid (fdiv (of_int (Math_round (fmul serverTotal 100))) 100)),
                       queried))))"


subsection \<open>Notions used to state the validator's properties\<close>

text \<open>
  A well-formed entry: its product reference is a non-empty string and its quantity is a
  positive integer.
\<close>

definition well_formed :: "CartItemPayload \<Rightarrow> bool" where
  "well_formed item =
     (case (product_id item, CartItemPayload.quantity item) of
        (JStr s, JNum q) \<Rightarrow> s \<noteq> [] \<and> of_int \<lfloor>q\<rfloor> = q \<and> 1 \<le> q
      | _ \<Rightarrow> False)"

text \<open>
  A malformed entry: its product reference is missing or empty, or its quantity is not a
  positive integer (it is zero, negative, not an integer, or not a number at all).
\<close>

definition malformed :: "CartItemPayload \<Rightarrow> bool" where
  "malformed item =
     (product_id item \<in> {JUndefined, JNull, JStr []}
      \<or> (case CartItemPayload.quantity item of
            JNum q \<Rightarrow> of_int \<lfloor>q\<rfloor> \<noteq> q \<or> q < 1
          | _ \<Rightarrow> True))"

text \<open>
  An entry the validator lets through: it is well-formed, its product exists, and the
  requested quantity is at most the product's current stock.
\<close>

definition acceptable :: "products \<Rightarrow> CartItemPayload \<Rightarrow> bool" where
  "acceptable db item =
     (well_formed item \<and>
      (case single db (product_id item) of
         None \<Rightarrow> False
       | Some row \<Rightarrow> num_of (CartItemPayload.quantity item) \<le> of_int (stock row)))"

text \<open>
  An entry the loop gets past, whatever its product reference is: the sanity check lets
  it through, the collection yields a row for it, and the stock is not below the quantity.
\<close>

definition passes :: "products \<Rightarrow> CartItemPayload \<Rightarrow> bool" where
  "passes db item =
     (\<not> invalid_item item \<and>
      (case single db (product_id item) of
         None \<Rightarrow> False
       | Some row \<Rightarrow> \<not> of_int (stock row) < num_of (CartItemPayload.quantity item)))"

text \<open>Stored price times requested quantity, for an entry whose product exists.\<close>

definition line_total :: "products \<Rightarrow> CartItemPayload \<Rightarrow> rat" where
  "line_total db item =
     (case single db (product_id item) of
        None \<Rightarrow> 0
      | Some row \<Rightarrow> Product.price row * num_of (CartItemPayload.quantity item))"

text \<open>The sum over the list of stored price times requested quantity.\<close>

definition server_sum :: "products \<Rightarrow> CartItemPayload list \<Rightarrow> rat" where
  "server_sum db entries = sum_list (map (line_total db) entries)"

text \<open>
  The same in double precision, as the loop accumulates it: the double product of the
  price with the quantity, added from left to right to the running total.
\<close>

definition line_double :: "products \<Rightarrow> CartItemPayload \<Rightarrow> rat" where
  "line_double db item =
     (case single db (product_id item) of
        None \<Rightarrow> 0
      | Some row \<Rightarrow> fmul (fl (Product.price row)) (num_of (CartItemPayload.quantity item)))"

fun double_total :: "products \<Rightarrow> CartItemPayload list \<Rightarrow> rat \<Rightarrow> rat" where
  "double_total db [] acc = acc"
| "double_total db (item # rest) acc = double_total db rest (fadd acc (line_double db item))"


text \<open>A one-row product table: product \<open>p1\<close> costs 100.00 and has 5 in stock.\<close>

definition p1_row :: Product where
  "p1_row = \<lparr>id_prod = ''p1'', Product.name = ''Widget'', Product.price = 100, stock = 5\<rparr>"

definition shop :: products where
  "shop = [JStr ''p1'' \<mapsto> p1_row]"

text \<open>
  A table with two cheap products: \<open>c1\<close> at 0.10 and \<open>c2\<close> at 19.99, 10 of each in
  stock. Neither price is a double.
\<close>

definition c1_row :: Product where
  "c1_row = \<lparr>id_prod = ''c1'', Product.name = ''Gum'', Product.price = 1 / 10, stock = 10\<rparr>"

definition c2_row :: Product where
  "c2_row = \<lparr>id_prod = ''c2'', Product.name = ''Mug'', Product.price = 1999 / 100, stock = 10\<rparr>"

definition kiosk :: products where
  "kiosk = [JStr ''c1'' \<mapsto> c1_row, JStr ''c2'' \<mapsto> c2_row]"

text \<open>
  A table with two dear products in large supply: \<open>p8\<close> at 427046.84 and \<open>p9\<close> at
  278030.03, 100000000 of each in stock.
\<close>

definition p8_row :: Product where
  "p8_row = \<lparr>id_prod = ''p8'', Product.name = ''Pallet'', Product.price = 42704684 / 100,
             stock = 100000000\<rparr>"

definition p9_row :: Product where
  "p9_row = \<lparr>id_prod = ''p9'', Product.name = ''Crate'', Product.price = 27803003 / 100,
             stock = 100000000\<rparr>"

definition warehouse :: products where
  "warehouse = [JStr ''p8'' \<mapsto> p8_row, JStr ''p9'' \<mapsto> p9_row]"

definition entry :: "string \<Rightarrow> rat \<Rightarrow> CartItemPayload" where
  "entry s q = \<lparr>product_id = JStr s, CartItemPayload.quantity = JNum q\<rparr>"

text \<open>A product that is sold out.\<close>

definition sold_out :: Product where
  "sold_out = \<lparr>id_prod = ''p2'', Product.name = ''Gadget'', Product.price = 5, stock = 0\<rparr>"

subsection \<open>The cart state holder\<close>

text \<open>
  Modelled from the spec: the declaration of \<open>CartItem\<close> in \<open>@/types/supabase\<close> is not
  among the sources. The specification has a cart entry as a product snapshot and a
  quantity, which is how the reducer reads it (\<open>i.product\<close>, \<open>i.quantity\<close>) and builds
  it.
\<close>

record CartItem =
  product :: Product
  quantity :: rat

record State =
  items :: "CartItem list"

text \<open>The optional \<open>quantity\<close> of \<open>ADD\<close> is \<open>None\<close> when it is left out.\<close>

datatype Action =
    ADD Product "rat option"
  | REMOVE string
  | UPDATE_QTY string rat
  | CLEAR
  | HYDRATE "CartItem list"

fun reducer :: "State \<Rightarrow> Action \<Rightarrow> State" where
  "reducer state (ADD action_product action_quantity) =
     (let addQty = (case action_quantity of None \<Rightarrow> 1 | Some q \<Rightarrow> q);
          exist = find (\<lambda>i. id_prod (product i) = id_prod action_product) (items state)
      in \<lparr>items =
           (case exist of
              Some e \<Rightarrow>
                map (\<lambda>i. if id_prod (product i) = id_prod action_product
                          then i\<lparr>CartItem.quantity :=
                                   min (CartItem.quantity i + addQty) (of_int (stock action_product))\<rparr>
                          else i)
                    (items state)
            | None \<Rightarrow>
                items state @
                [\<lparr>product = action_product, CartItem.quantity = min addQty (of_int (stock action_product))\<rparr>])\<rparr>)"
| "reducer state (REMOVE productId) =
     \<lparr>items = filter (\<lambda>i. id_prod (product i) \<noteq> productId) (items state)\<rparr>"
| "reducer state (UPDATE_QTY productId qty) =
     (if qty \<le> 0
      then \<lparr>items = filter (\<lambda>i. id_prod (product i) \<noteq> productId) (items state)\<rparr>
      else \<lparr>items =
             map (\<lambda>i. if id_prod (product i) = productId
                       then i\<lparr>CartItem.quantity := min qty (of_int (stock (product i)))\<rparr>
                       else i)
                 (items state)\<rparr>)"
| "reducer state CLEAR = \<lparr>items = []\<rparr>"
| "reducer state (HYDRATE restored) = \<lparr>items = restored\<rparr>"

subsection \<open>The order writer\<close>

record Address =
  name :: string
  street :: string
  city :: string
  pincode :: string

text \<open>
  \<open>!s.trim()\<close>: the string is empty once its white space and line terminators are
  stripped, that is, it consists of such characters only. Strings are byte lists here, a
  character beyond ASCII being its UTF-8 bytes: U+00A0 is \<open>C2 A0\<close>, U+1680 is
  \<open>E1 9A 80\<close>, U+2000 to U+200A, U+2028, U+2029 and U+202F are \<open>E2 80\<close> followed by
  \<open>80\<close> to \<open>8A\<close>, \<open>A8\<close>, \<open>A9\<close> and \<open>AF\<close>, U+205F is \<open>E2 81 9F\<close>, U+3000 is
  \<open>E3 80 80\<close> and U+FEFF is \<open>EF BB BF\<close>.
\<close>

fun trim_empty :: "string \<Rightarrow> bool" where
  "trim_empty [] = True"
| "trim_empty (c # cs) =
     (if c \<in> {CHR 0x09, CHR 0x0A, CHR 0x0B, CHR 0x0C, CHR 0x0D, CHR 0x20} then trim_empty cs
      else
        (case cs of
           d # ds \<Rightarrow>
             if c = CHR 0xC2 \<and> d = CHR 0xA0 then trim_empty ds
             else
               (case ds of
                  e # es \<Rightarrow>
                    if (c = CHR 0xE1 \<and> d = CHR 0x9A \<and> e = CHR 0x80)
                       \<or> (c = CHR 0xE2 \<and> d = CHR 0x80
                           \<and> (e \<in> {CHR 0x80, CHR 0x81, CHR 0x82, CHR 0x83, CHR 0x84, CHR 0x85,
                                     CHR 0x86, CHR 0x87, CHR 0x88, CHR 0x89, CHR 0x8A,
                                     CHR 0xA8, CHR 0xA9, CHR 0xAF}))
                       \<or> (c = CHR 0xE2 \<and> d = CHR 0x81 \<and> e = CHR 0x9F)
                       \<or> (c = CHR 0xE3 \<and> d = CHR 0x80 \<and> e = CHR 0x80)
                       \<or> (c = CHR 0xEF \<and> d = CHR 0xBB \<and> e = CHR 0xBF)
                    then trim_empty es
                    else False
                | [] \<Rightarrow> False)
         | [] \<Rightarrow> False))"

text \<open>A row of \<open>public.orders\<close> and a row of \<open>public.order_items\<close>, as inserted.\<close>

record orders_row =
  id_order :: string
  user_id :: string
  total_amount :: rat
  status :: string

record order_items_row =
  order_id :: string
  product_id :: string
  quantity :: rat
  price :: rat

text \<open>The messages \<open>setError\<close> is called with.\<close>

datatype submit_error =
    FillAddress
  | Rejected message
  | ValidationFailed
  | MustBeSignedIn
  | FailedToCreateOrder
  | FailedToSaveItems

text \<open>What a submission leaves behind: the error shown, and the rows written.\<close>

record outcome =
  error :: "submit_error option"
  order :: "orders_row option"
  order_items :: "order_items_row list"

text \<open>
  \<open>handleSubmit\<close> of the checkout page. The validation request carries the session of
  \<open>user\<close> and is answered by \<open>POST\<close> over the table \<open>db\<close>. The two inserts are
  decided by the backend: \<open>new_order_id\<close> is the id of the created order row (\<open>None\<close>
  when the insert fails), \<open>items_saved\<close> tells whether the line items were stored.
  A network failure of the validation request itself (the \<open>catch\<close> branch) is not
  covered. An answer with an ok status and no \<open>serverTotal\<close> would leave
  \<open>total_amount\<close> out of the insert, which the NOT NULL column refuses: that is the last
  branch.
\<close>

definition handleSubmit ::
  "Address \<Rightarrow> string option \<Rightarrow> products \<Rightarrow> CartItem list \<Rightarrow> string option \<Rightarrow> bool \<Rightarrow> outcome" where
  "handleSubmit address user db cart new_order_id items_saved =
     (if trim_empty (Address.name address) \<or> trim_empty (street address)
         \<or> trim_empty (city address) \<or> trim_empty (pincode address)
      then \<lparr>error = Some FillAddress, order = None, order_items = []\<rparr>
      else
        (case fst (POST user db
                     (ItemList (map (\<lambda>i. \<lparr>CartItemPayload.product_id = JStr (id_prod (product i)),
                                            CartItemPayload.quantity = JNum (CartItem.quantity i)\<rparr>)
                                    cart))) of
           Response st json \<Rightarrow>
             if \<not> (200 \<le> st \<and> st \<le> 299)
             then \<lparr>error = Some (case json of Error m \<Rightarrow> Rejected m | Valid t \<Rightarrow> ValidationFailed),
                   order = None, order_items = []\<rparr>
             else
               (case user of
                  None \<Rightarrow> \<lparr>error = Some MustBeSignedIn, order = None, order_items = []\<rparr>
                | Some u \<Rightarrow>
                    (case (json, new_order_id) of
                       (Valid serverTotal, Some new_id) \<Rightarrow>
                         (let created = \<lparr>id_order = new_id, user_id = u,
                                         total_amount = serverTotal, status = ''pending''\<rparr>
                          in if items_saved
                             then \<lparr>error = None, order = Some created,
                                   order_items =
                                     map (\<lambda>i. \<lparr>order_id = new_id,
                                                order_items_row.product_id = id_prod (product i),
                                                order_items_row.quantity = CartItem.quantity i,
                                                order_items_row.price = Product.price (product i)\<rparr>)
                                         cart\<rparr>
                             else \<lparr>error = Some FailedToSaveItems, order = Some created,
                                   order_items = []\<rparr>)
                     | _ \<Rightarrow> \<lparr>error = Some FailedToCreateOrder, order = None,
                             order_items = []\<rparr>))))"

text \<open>The sum over an order's line items of recorded unit price times quantity.\<close>

definition line_items_sum :: "order_items_row list \<Rightarrow> rat" where
  "line_items_sum rows =
     sum_list (map (\<lambda>r. order_items_row.price r * order_items_row.quantity r) rows)"

text \<open>
  A submission whose cart holds a snapshot of \<open>p1\<close> taken when it cost 90.00; the
  stored price is 100.00 by now.
\<close>

definition jane :: Address where
  "jane = \<lparr>Address.name = ''Jane Doe'', street = ''123 Main St'', city = ''Mumbai'',
            pincode = ''400001''\<rparr>"

definition stale_cart :: "CartItem list" where
  "stale_cart = [\<lparr>product = p1_row\<lparr>Product.price := 90\<rparr>, CartItem.quantity = 1\<rparr>]"

section \<open>Properties\<close>

subsection \<open>Rounding to the nearest double\<close>

lemma bit_length_bounds:
  "0 < n \<Longrightarrow> 2 ^ (bit_length n - 1) \<le> n \<and> n < 2 ^ bit_length n"
proof (induction n rule: bit_length.induct)
  case (1 n)
  show ?case
  proof (cases "n div 2 \<le> 0")
    case True
    with "1.prems" have "n = 1" by linarith
    then show ?thesis by (simp add: bit_length.simps)
  next
    case False
    with "1.IH" "1.prems" have IH: "2 ^ (bit_length (n div 2) - 1) \<le> n div 2"
      "n div 2 < 2 ^ bit_length (n div 2)" by auto
    have pos: "0 < bit_length (n div 2)" using False by (simp add: bit_length.simps)
    have b: "bit_length n = Suc (bit_length (n div 2))"
      using "1.prems" by (simp add: bit_length.simps)
    have "(2::int) ^ (bit_length n - 1) = 2 * 2 ^ (bit_length (n div 2) - 1)"
      using pos b by (cases "bit_length (n div 2)") auto
    also have "\<dots> \<le> 2 * (n div 2)" using IH(1) by simp
    also have "\<dots> \<le> n" by simp
    finally have lo: "2 ^ (bit_length n - 1) \<le> n" .
    have "n < 2 * (n div 2) + 2" by linarith
    also have "\<dots> \<le> 2 * 2 ^ bit_length (n div 2)" using IH(2) by simp
    finally have "n < 2 ^ bit_length n" using b by simp
    with lo show ?thesis by simp
  qed
qed

lemma bit_length_pos: "0 < n \<Longrightarrow> 0 < bit_length n"
  by (simp add: bit_length.simps)

lemma pow2_pos: "0 < pow2 e"
  by (simp add: pow2_def)

lemma log2_floor_bounds:
  assumes "0 < x"
  shows "pow2 (log2_floor x) \<le> x \<and> x < 2 * pow2 (log2_floor x)"
proof (cases "1 \<le> x")
  case True
  let ?n = "\<lfloor>x\<rfloor>"
  have n: "0 < ?n" using True by simp
  from bit_length_bounds [OF n]
  have lo: "2 ^ (bit_length ?n - 1) \<le> ?n" and hi: "?n < 2 ^ bit_length ?n" by simp_all
  have e: "log2_floor x = int (bit_length ?n - 1)"
    using True bit_length_pos [OF n] by (simp add: log2_floor_def)
  have p: "pow2 (log2_floor x) = 2 ^ (bit_length ?n - 1)"
    unfolding e by (simp add: pow2_def)
  have "(2::rat) ^ (bit_length ?n - 1) = of_int (2 ^ (bit_length ?n - 1))" by simp
  also have "\<dots> \<le> of_int ?n" using lo by (simp only: of_int_le_iff)
  also have "\<dots> \<le> x" by (rule of_int_floor_le)
  finally have 1: "pow2 (log2_floor x) \<le> x" using p by simp
  have "?n + 1 \<le> 2 ^ bit_length ?n" using hi by simp
  then have "(of_int (?n + 1) :: rat) \<le> of_int (2 ^ bit_length ?n)"
    by (simp only: of_int_le_iff)
  moreover have "x < of_int (?n + 1)" by linarith
  ultimately have "x < of_int (2 ^ bit_length ?n)" by (rule less_le_trans [rotated])
  then have "x < 2 ^ bit_length ?n" by simp
  also have "(2::rat) ^ bit_length ?n = 2 * 2 ^ (bit_length ?n - 1)"
    using bit_length_pos [OF n] by (cases "bit_length ?n") auto
  finally show ?thesis using 1 p by simp
next
  case False
  let ?c = "\<lceil>1 / x\<rceil>"
  let ?k = "bit_length (?c - 1)"
  from False assms have "1 < 1 / x" by simp
  then have c: "0 < ?c - 1" by linarith
  from bit_length_bounds [OF c]
  have lo: "2 ^ (?k - 1) \<le> ?c - 1" and hi: "?c - 1 < 2 ^ ?k" by simp_all
  have kpos: "0 < ?k" using bit_length_pos [OF c] .
  have e: "log2_floor x = - int ?k" using False by (simp add: log2_floor_def)
  have p: "pow2 (log2_floor x) = 1 / 2 ^ ?k"
    unfolding e using kpos by (simp add: pow2_def)
  have "?c \<le> 2 ^ ?k" using hi by simp
  then have "(of_int ?c :: rat) \<le> of_int (2 ^ ?k)" by (simp only: of_int_le_iff)
  moreover have "1 / x \<le> of_int ?c" by (rule le_of_int_ceiling)
  ultimately have "1 / x \<le> of_int (2 ^ ?k)" by (rule order_trans [rotated])
  then have "1 / x \<le> 2 ^ ?k" by simp
  then have 1: "1 / 2 ^ ?k \<le> x" using assms by (simp add: field_simps)
  have "(of_int (2 ^ (?k - 1)) :: rat) \<le> of_int (?c - 1)" using lo by (simp only: of_int_le_iff)
  moreover have "of_int (?c - 1) < 1 / x" by linarith
  ultimately have "of_int (2 ^ (?k - 1)) < 1 / x" by (rule le_less_trans)
  then have "2 ^ (?k - 1) < 1 / x" by simp
  then have "x < 1 / 2 ^ (?k - 1)" using assms by (simp add: field_simps)
  also have "(1::rat) / 2 ^ (?k - 1) = 2 * (1 / 2 ^ ?k)"
    using kpos by (cases ?k) auto
  finally show ?thesis using 1 p by simp
qed

lemma round_half_even_close: "\<bar>of_int (round_half_even m) - m\<bar> \<le> 1 / 2"
proof -
  have "of_int \<lfloor>m\<rfloor> \<le> m" "m < of_int \<lfloor>m\<rfloor> + 1" by linarith+
  then show ?thesis by (auto simp: round_half_even_def Let_def)
qed

lemma round_half_even_nonneg: "0 \<le> m \<Longrightarrow> 0 \<le> round_half_even m"
  by (auto simp: round_half_even_def Let_def)

lemma fl_error: "\<bar>fl x - x\<bar> \<le> \<bar>x\<bar> / 2 ^ 53"
proof (cases "x = 0")
  case True
  then show ?thesis by (simp add: fl_def)
next
  case False
  define ulp where "ulp = pow2 (log2_floor \<bar>x\<bar>) / 2 ^ 52"
  define k where "k = round_half_even (\<bar>x\<bar> / ulp)"
  have ulp: "0 < ulp" by (simp add: ulp_def pow2_pos)
  have f: "fl x = sgn x * of_int k * ulp"
    using False by (simp add: fl_def Let_def ulp_def k_def)
  from log2_floor_bounds [of "\<bar>x\<bar>"] False
  have "pow2 (log2_floor \<bar>x\<bar>) \<le> \<bar>x\<bar>" by simp
  then have u: "ulp / 2 \<le> \<bar>x\<bar> / 2 ^ 53" by (simp add: ulp_def)
  have "\<bar>of_int k - \<bar>x\<bar> / ulp\<bar> \<le> 1 / 2" unfolding k_def by (rule round_half_even_close)
  then have "\<bar>of_int k - \<bar>x\<bar> / ulp\<bar> * ulp \<le> 1 / 2 * ulp"
    using ulp by (intro mult_right_mono) simp_all
  moreover have eq: "of_int k * ulp - \<bar>x\<bar> = (of_int k - \<bar>x\<bar> / ulp) * ulp"
    using ulp by (simp add: left_diff_distrib)
  have "\<bar>of_int k * ulp - \<bar>x\<bar>\<bar> = \<bar>of_int k - \<bar>x\<bar> / ulp\<bar> * ulp"
    unfolding eq abs_mult using ulp by simp
  ultimately have "\<bar>of_int k * ulp - \<bar>x\<bar>\<bar> \<le> ulp / 2"
    by simp
  moreover have "\<bar>fl x - x\<bar> = \<bar>of_int k * ulp - \<bar>x\<bar>\<bar>"
  proof (cases "0 < x")
    case True
    then show ?thesis by (simp add: f)
  next
    case F: False
    with False have "x < 0" by simp
    then show ?thesis by (simp add: f abs_minus_commute)
  qed
  ultimately show ?thesis using u by simp
qed

lemma fl_nonneg: "0 \<le> x \<Longrightarrow> 0 \<le> fl x"
  by (auto simp: fl_def Let_def pow2_def intro!: mult_nonneg_nonneg round_half_even_nonneg divide_nonneg_nonneg)

subsection \<open>The validation loop\<close>

lemma well_formed_valid: "well_formed e \<Longrightarrow> \<not> invalid_item e"
  by (cases "CartItemPayload.product_id e"; cases "CartItemPayload.quantity e")
     (auto simp: well_formed_def invalid_item_def)

lemma malformed_invalid: "malformed e \<Longrightarrow> invalid_item e"
  by (cases "CartItemPayload.product_id e"; cases "CartItemPayload.quantity e")
     (auto simp: malformed_def invalid_item_def)

lemma passes_iff:
  "passes db e \<longleftrightarrow>
     \<not> invalid_item e \<and>
     (\<exists>row. single db (CartItemPayload.product_id e) = Some row
        \<and> \<not> of_int (stock row) < num_of (CartItemPayload.quantity e))"
  by (auto simp: passes_def split: option.splits)

lemma acceptable_passes: "acceptable db e \<Longrightarrow> passes db e"
  unfolding acceptable_def passes_def
  by (auto dest: well_formed_valid split: option.splits)

lemma POST_loop_step:
  assumes "passes db e"
  shows "POST_loop db (e # rest) acc =
           (case POST_loop db rest (fadd acc (line_double db e)) of
              (r, queried) \<Rightarrow> (r, CartItemPayload.product_id e # queried))"
proof -
  from assms obtain row where
    e: "\<not> invalid_item e" "single db (CartItemPayload.product_id e) = Some row"
       "\<not> of_int (stock row) < num_of (CartItemPayload.quantity e)"
    by (auto simp: passes_iff)
  then show ?thesis by (simp add: line_double_def)
qed

lemma POST_loop_passes_prefix:
  "\<forall>e \<in> set pre. passes db e \<Longrightarrow>
   POST_loop db (pre @ rest) acc =
     (case POST_loop db rest (double_total db pre acc) of
        (r, queried) \<Rightarrow> (r, map CartItemPayload.product_id pre @ queried))"
proof (induction pre arbitrary: acc)
  case Nil
  then show ?case by simp
next
  case (Cons e pre)
  from Cons.prems have ok: "passes db e" and rest: "\<forall>e \<in> set pre. passes db e"
    by simp_all
  show ?case
    using POST_loop_step [OF ok, of "pre @ rest" acc]
      Cons.IH [OF rest, of "fadd acc (line_double db e)"]
    by (simp split: prod.splits)
qed

lemma POST_loop_acceptable_prefix:
  "\<forall>e \<in> set pre. acceptable db e \<Longrightarrow>
   POST_loop db (pre @ rest) acc =
     (case POST_loop db rest (double_total db pre acc) of
        (r, queried) \<Rightarrow> (r, map CartItemPayload.product_id pre @ queried))"
  by (rule POST_loop_passes_prefix) (simp add: acceptable_passes)

lemma POST_loop_all_pass:
  "\<forall>e \<in> set xs. passes db e \<Longrightarrow>
   POST_loop db xs acc = (Inr (double_total db xs acc), map CartItemPayload.product_id xs)"
  using POST_loop_passes_prefix [of xs db "[]" acc] by simp

lemma POST_loop_Inr:
  "POST_loop db xs acc = (Inr t, queried) \<Longrightarrow>
   (\<forall>e \<in> set xs. passes db e) \<and> t = double_total db xs acc"
proof (induction xs arbitrary: acc queried)
  case Nil
  then show ?case by simp
next
  case (Cons e xs)
  from Cons.prems obtain row queried' where
    e: "\<not> invalid_item e" "single db (CartItemPayload.product_id e) = Some row"
       "\<not> of_int (stock row) < num_of (CartItemPayload.quantity e)"
    and r: "POST_loop db xs
              (fadd acc (fmul (fl (Product.price row)) (num_of (CartItemPayload.quantity e))))
              = (Inr t, queried')"
    by (auto split: if_splits option.splits prod.splits)
  have "passes db e" using e by (auto simp: passes_iff)
  moreover have "line_double db e
                   = fmul (fl (Product.price row)) (num_of (CartItemPayload.quantity e))"
    by (simp add: line_double_def e)
  ultimately show ?case using Cons.IH [OF r] by simp
qed

lemma POST_loop_invalid_item:
  "invalid_item bad \<Longrightarrow>
   prefix (snd (POST_loop db (pre @ bad # post) acc)) (map CartItemPayload.product_id pre)
   \<and> (\<forall>t. fst (POST_loop db (pre @ bad # post) acc) \<noteq> Inr t)"
proof (induction pre arbitrary: acc)
  case Nil
  then show ?case by simp
next
  case (Cons e pre)
  note IH = Cons.IH [OF Cons.prems]
  show ?case
  proof (cases "single db (CartItemPayload.product_id e)")
    case None
    then show ?thesis by simp
  next
    case (Some row)
    then show ?thesis
      using IH [of "fadd acc (fmul (fl (Product.price row))
                                   (num_of (CartItemPayload.quantity e)))"]
      by (auto split: prod.splits)
  qed
qed

lemma POST_loop_Inl_Error:
  "fst (POST_loop db xs acc) = Inl resp \<Longrightarrow> \<exists>st m. resp = Response st (Error m)"
proof (induction xs arbitrary: acc)
  case Nil
  then show ?case by simp
next
  case (Cons e xs)
  show ?case
  proof (cases "single db (CartItemPayload.product_id e)")
    case None
    with Cons.prems show ?thesis by (auto split: if_splits)
  next
    case (Some row)
    with Cons.prems
      Cons.IH [of "fadd acc (fmul (fl (Product.price row))
                                  (num_of (CartItemPayload.quantity e)))"]
    show ?thesis by (auto split: if_splits prod.splits)
  qed
qed

lemma POST_nonempty:
  "xs \<noteq> [] \<Longrightarrow>
   POST (Some u) db (ItemList xs) =
     (case POST_loop db xs 0 of
        (Inl r, queried) \<Rightarrow> (r, queried)
      | (Inr serverTotal, queried) \<Rightarrow>
          (Response 200 (Valid (fdiv (of_int (Math_round (fmul serverTotal 100))) 100)),
           queried))"
  by (simp add: POST_def)

lemma POST_invalid_item:
  assumes "invalid_item bad"
  shows "prefix (snd (POST user db (ItemList (pre @ bad # post))))
                (map CartItemPayload.product_id pre)
         \<and> (\<exists>st m. fst (POST user db (ItemList (pre @ bad # post))) = Response st (Error m))"
proof (cases user)
  case None
  then show ?thesis by (simp add: POST_def)
next
  case (Some u)
  obtain r queried where l: "POST_loop db (pre @ bad # post) 0 = (r, queried)"
    by (cases "POST_loop db (pre @ bad # post) 0")
  from POST_loop_invalid_item [OF assms, of db pre post 0] l
  have p: "prefix queried (map CartItemPayload.product_id pre)" and "\<forall>t. r \<noteq> Inr t"
    by simp_all
  then obtain resp where r: "r = Inl resp" by (cases r) auto
  from POST_loop_Inl_Error [of db "pre @ bad # post" 0 resp] l r
  obtain st m where e: "resp = Response st (Error m)" by auto
  have "POST user db (ItemList (pre @ bad # post)) = (Response st (Error m), queried)"
    using Some l r e by (simp add: POST_nonempty)
  then show ?thesis using p by simp
qed

lemma POST_Valid:
  assumes "fst (POST user db (ItemList xs)) = Response st (Valid t)"
  shows "(\<forall>e \<in> set xs. passes db e)
         \<and> t = fdiv (of_int (Math_round (fmul (double_total db xs 0) 100))) 100"
proof -
  from assms obtain u where u: "user = Some u" and ne: "xs \<noteq> []"
    by (cases user; cases "xs = []") (auto simp: POST_def)
  obtain r queried where l: "POST_loop db xs 0 = (r, queried)"
    by (cases "POST_loop db xs 0")
  show ?thesis
  proof (cases r)
    case (Inl resp)
    from POST_loop_Inl_Error [of db xs 0 resp] l Inl
    obtain st' m where "resp = Response st' (Error m)" by auto
    with assms u ne l Inl show ?thesis by (simp add: POST_nonempty)
  next
    case (Inr acc)
    from POST_loop_Inr [of db xs 0 acc queried] l Inr
    have "\<forall>e \<in> set xs. passes db e" and "acc = double_total db xs 0"
      by simp_all
    with assms u ne l Inr show ?thesis by (simp add: POST_nonempty)
  qed
qed

text \<open>
  A product reference that is not a string is looked up like any other: over a collection
  that yields the row of \<open>p1\<close> for the array holding \<open>p1\<close>, such an entry is priced.
\<close>

lemma POST_array_reference:
  "POST (Some ''u1'') (shop(JArray [JStr ''p1''] \<mapsto> p1_row))
        (ItemList [\<lparr>CartItemPayload.product_id = JArray [JStr ''p1''],
                    CartItemPayload.quantity = JNum 2\<rparr>])
     = (Response 200 (Valid 200), [JArray [JStr ''p1'']])"
  by code_simp


subsection \<open>The rounding error of the accumulated total\<close>

lemma unit_roundoff_bounds: "0 \<le> unit_roundoff" "unit_roundoff \<le> 1"
  by (simp_all add: unit_roundoff_def)

lemma fl_error_nonneg:
  assumes "0 \<le> x"
  shows "x - unit_roundoff * x \<le> fl x" and "fl x \<le> x + unit_roundoff * x"
proof -
  have "unit_roundoff * x = \<bar>x\<bar> / 2 ^ 53" using assms by (simp add: unit_roundoff_def)
  with fl_error [of x] have "\<bar>fl x - x\<bar> \<le> unit_roundoff * x" by simp
  then show "x - unit_roundoff * x \<le> fl x" and "fl x \<le> x + unit_roundoff * x"
    by linarith+
qed

lemma fl_upper: "0 \<le> x \<Longrightarrow> fl x \<le> (1 + unit_roundoff) * x"
  using fl_error_nonneg(2) [of x] by (simp add: distrib_right)

lemma fl_lower: "0 \<le> x \<Longrightarrow> (1 - unit_roundoff) * x \<le> fl x"
  using fl_error_nonneg(1) [of x] by (simp add: left_diff_distrib)

lemma pow_one_plus_le:
  fixes u :: rat
  assumes "0 \<le> u" and "of_nat n * u \<le> 1 / 2"
  shows "(1 + u) ^ n \<le> 1 + 2 * of_nat n * u"
  using assms(2)
proof (induction n)
  case 0
  then show ?case by simp
next
  case (Suc n)
  from Suc.prems assms(1) have n: "of_nat n * u \<le> 1 / 2"
    by (simp add: algebra_simps) 
  from Suc.IH [OF n] have IH: "(1 + u) ^ n \<le> 1 + 2 * of_nat n * u" .
  have "(1 + u) ^ Suc n = (1 + u) * (1 + u) ^ n" by simp
  also have "\<dots> \<le> (1 + u) * (1 + 2 * of_nat n * u)"
    using IH assms(1) by (intro mult_left_mono) simp_all
  also have "\<dots> = 1 + 2 * of_nat n * u + u + (2 * of_nat n * u) * u"
    by (simp add: algebra_simps)
  also have "(2 * of_nat n * u) * u \<le> 1 * u"
    using n assms(1) by (intro mult_right_mono) simp_all
  finally show ?case by (simp add: algebra_simps)
qed

lemma pow_one_minus_ge:
  fixes u :: rat
  assumes "0 \<le> u" and "u \<le> 1"
  shows "1 - of_nat n * u \<le> (1 - u) ^ n"
proof (induction n)
  case 0
  show ?case by simp
next
  case (Suc n)
  have "1 - of_nat (Suc n) * u \<le> (1 - u) * (1 - of_nat n * u)"
    using assms(1) by (simp add: algebra_simps)
  also have "\<dots> \<le> (1 - u) * (1 - u) ^ n"
    using Suc.IH assms(2) by (intro mult_left_mono) simp_all
  finally show ?case by simp
qed

lemma passes_row:
  assumes "passes db e"
  obtains row where "single db (CartItemPayload.product_id e) = Some row"
    and "row \<in> ran db"
    and "1 \<le> num_of (CartItemPayload.quantity e)"
    and "of_int \<lfloor>num_of (CartItemPayload.quantity e)\<rfloor> = num_of (CartItemPayload.quantity e)"
proof -
  from assms obtain row where r: "single db (CartItemPayload.product_id e) = Some row"
    and v: "\<not> invalid_item e"
    by (auto simp: passes_iff)
  from r have "row \<in> ran db" by (auto simp: single_def ran_def)
  moreover from v have "1 \<le> num_of (CartItemPayload.quantity e)"
    and "of_int \<lfloor>num_of (CartItemPayload.quantity e)\<rfloor> = num_of (CartItemPayload.quantity e)"
    by (cases "CartItemPayload.quantity e"; simp add: invalid_item_def)+
  ultimately show thesis using r that by blast
qed

lemma line_total_nonneg:
  assumes "products_checks db" and "passes db e"
  shows "0 \<le> line_total db e"
proof -
  from assms(2) obtain row where r: "single db (CartItemPayload.product_id e) = Some row"
    and "row \<in> ran db" and "1 \<le> num_of (CartItemPayload.quantity e)"
    by (rule passes_row)
  with assms(1) show ?thesis by (simp add: line_total_def products_checks_def)
qed

lemma server_sum_nonneg:
  "products_checks db \<Longrightarrow> \<forall>e \<in> set xs. passes db e \<Longrightarrow> 0 \<le> server_sum db xs"
  unfolding server_sum_def by (rule sum_list_nonneg) (auto simp: line_total_nonneg)

lemma line_double_bounds:
  assumes "products_checks db" and "passes db e"
  shows "(1 - unit_roundoff) ^ 2 * line_total db e \<le> line_double db e"
    and "line_double db e \<le> (1 + unit_roundoff) ^ 2 * line_total db e"
proof -
  from assms(2) obtain row where r: "single db (CartItemPayload.product_id e) = Some row"
    and "row \<in> ran db" and q: "1 \<le> num_of (CartItemPayload.quantity e)"
    by (rule passes_row)
  with assms(1) have p: "0 \<le> Product.price row" by (simp add: products_checks_def)
  let ?p = "Product.price row" and ?q = "num_of (CartItemPayload.quantity e)"
  let ?u = unit_roundoff
  have q0: "0 \<le> ?q" using q by simp
  have u: "0 \<le> 1 - ?u" "0 \<le> 1 + ?u" using unit_roundoff_bounds by simp_all
  have L: "line_total db e = ?p * ?q" and D: "line_double db e = fl (fl ?p * ?q)"
    by (simp_all add: line_total_def line_double_def r fmul_def)
  have fp: "0 \<le> fl ?p" using p by (rule fl_nonneg)
  have prod: "0 \<le> fl ?p * ?q" using fp q0 by simp
  have "(1 - ?u) ^ 2 * (?p * ?q) = (1 - ?u) * (((1 - ?u) * ?p) * ?q)"
    by (simp add: power2_eq_square algebra_simps)
  also have "\<dots> \<le> (1 - ?u) * (fl ?p * ?q)"
    using fl_lower [OF p] q0 u by (intro mult_left_mono mult_right_mono) simp_all
  also have "\<dots> \<le> fl (fl ?p * ?q)" using prod by (rule fl_lower)
  finally show "(1 - ?u) ^ 2 * line_total db e \<le> line_double db e" by (simp add: L D)
  have "fl (fl ?p * ?q) \<le> (1 + ?u) * (fl ?p * ?q)" using prod by (rule fl_upper)
  also have "\<dots> \<le> (1 + ?u) * (((1 + ?u) * ?p) * ?q)"
    using fl_upper [OF p] q0 u by (intro mult_left_mono mult_right_mono) simp_all
  also have "\<dots> = (1 + ?u) ^ 2 * (?p * ?q)"
    by (simp add: power2_eq_square algebra_simps)
  finally show "line_double db e \<le> (1 + ?u) ^ 2 * line_total db e" by (simp add: L D)
qed

lemma double_total_bounds:
  assumes "products_checks db"
  shows "\<forall>e \<in> set xs. passes db e \<Longrightarrow> 0 \<le> s \<Longrightarrow> 2 \<le> m \<Longrightarrow>
         (1 - unit_roundoff) ^ m * s \<le> acc \<Longrightarrow> acc \<le> (1 + unit_roundoff) ^ m * s \<Longrightarrow>
         (1 - unit_roundoff) ^ (m + length xs) * (s + server_sum db xs) \<le> double_total db xs acc
         \<and> double_total db xs acc \<le> (1 + unit_roundoff) ^ (m + length xs) * (s + server_sum db xs)"
proof (induction xs arbitrary: acc s m)
  case Nil
  then show ?case by (simp add: server_sum_def)
next
  case (Cons e xs)
  let ?u = unit_roundoff
  let ?L = "line_total db e" and ?D = "line_double db e"
  from Cons.prems(1) have ok: "passes db e" and rest: "\<forall>e \<in> set xs. passes db e" by simp_all
  have u: "0 \<le> 1 - ?u" "1 - ?u \<le> 1" "1 \<le> 1 + ?u" "0 \<le> 1 + ?u"
    using unit_roundoff_bounds by simp_all
  have L0: "0 \<le> ?L" using assms ok by (rule line_total_nonneg)
  note D = line_double_bounds [OF assms ok]
  have lo_pow: "(1 - ?u) ^ m \<le> (1 - ?u) ^ 2"
    using u Cons.prems(3) by (intro power_decreasing) simp_all
  have hi_pow: "(1 + ?u) ^ 2 \<le> (1 + ?u) ^ m"
    using u Cons.prems(3) by (intro power_increasing) simp_all
  have "(1 - ?u) ^ m * (s + ?L) = (1 - ?u) ^ m * s + (1 - ?u) ^ m * ?L"
    by (simp add: algebra_simps)
  also have "\<dots> \<le> acc + (1 - ?u) ^ 2 * ?L"
    using Cons.prems(4) mult_right_mono [OF lo_pow L0] by (intro add_mono) simp_all
  also have "\<dots> \<le> acc + ?D" using D(1) by simp
  finally have lo: "(1 - ?u) ^ m * (s + ?L) \<le> acc + ?D" .
  have "acc + ?D \<le> (1 + ?u) ^ m * s + (1 + ?u) ^ 2 * ?L"
    using Cons.prems(5) D(2) by (intro add_mono) simp_all
  also have "\<dots> \<le> (1 + ?u) ^ m * s + (1 + ?u) ^ m * ?L"
    using mult_right_mono [OF hi_pow L0] by simp
  finally have hi: "acc + ?D \<le> (1 + ?u) ^ m * (s + ?L)" by (simp add: algebra_simps)
  have sL: "0 \<le> s + ?L" using Cons.prems(2) L0 by simp
  have nn: "0 \<le> acc + ?D"
    using lo sL u by (meson mult_nonneg_nonneg order_trans zero_le_power)
  have lo': "(1 - ?u) ^ Suc m * (s + ?L) \<le> fadd acc ?D"
  proof -
    have "(1 - ?u) ^ Suc m * (s + ?L) = (1 - ?u) * ((1 - ?u) ^ m * (s + ?L))" by simp
    also have "\<dots> \<le> (1 - ?u) * (acc + ?D)" using lo u by (intro mult_left_mono) simp_all
    also have "\<dots> \<le> fl (acc + ?D)" using nn by (rule fl_lower)
    finally show ?thesis by (simp add: fadd_def)
  qed
  have hi': "fadd acc ?D \<le> (1 + ?u) ^ Suc m * (s + ?L)"
  proof -
    have "fl (acc + ?D) \<le> (1 + ?u) * (acc + ?D)" using nn by (rule fl_upper)
    also have "\<dots> \<le> (1 + ?u) * ((1 + ?u) ^ m * (s + ?L))"
      using hi u by (intro mult_left_mono) simp_all
    finally show ?thesis by (simp add: fadd_def)
  qed
  have m': "2 \<le> Suc m" using Cons.prems(3) by simp
  from Cons.IH [OF rest sL m' lo' hi']
  show ?case by (simp add: server_sum_def add.assoc)
qed

lemma line_total_cents:
  assumes "products_numeric db" and "passes db e"
  shows "\<exists>k :: int. line_total db e * 100 = of_int k"
proof -
  from assms(2) obtain row where r: "single db (CartItemPayload.product_id e) = Some row"
    and "row \<in> ran db"
    and q: "of_int \<lfloor>num_of (CartItemPayload.quantity e)\<rfloor> = num_of (CartItemPayload.quantity e)"
    by (rule passes_row)
  with assms(1) have p: "of_int \<lfloor>Product.price row * 100\<rfloor> = Product.price row * 100"
    by (simp add: products_numeric_def)
  have "line_total db e * 100
          = (Product.price row * 100) * num_of (CartItemPayload.quantity e)"
    by (simp add: line_total_def r)
  also have "\<dots> = of_int \<lfloor>Product.price row * 100\<rfloor>
                      * of_int \<lfloor>num_of (CartItemPayload.quantity e)\<rfloor>"
    by (simp only: p q)
  also have "\<dots> = of_int (\<lfloor>Product.price row * 100\<rfloor>
                              * \<lfloor>num_of (CartItemPayload.quantity e)\<rfloor>)"
    by simp
  finally show ?thesis by blast
qed

lemma server_sum_cents:
  assumes "products_numeric db"
  shows "\<forall>e \<in> set xs. passes db e \<Longrightarrow> \<exists>k :: int. server_sum db xs * 100 = of_int k"
proof (induction xs)
  case Nil
  have "server_sum db [] * 100 = of_int 0" by (simp add: server_sum_def)
  then show ?case by blast
next
  case (Cons e xs)
  from Cons obtain k where k: "server_sum db xs * 100 = of_int k" by auto
  from line_total_cents [OF assms, of e] Cons.prems
  obtain j where j: "line_total db e * 100 = of_int j" by auto
  have "server_sum db (e # xs) * 100 = line_total db e * 100 + server_sum db xs * 100"
    by (simp add: server_sum_def algebra_simps)
  also have "\<dots> = of_int (j + k)" by (simp add: j k)
  finally show ?case by blast
qed

lemma Math_round_exact:
  assumes S0: "0 \<le> S"
    and k: "S * 100 = of_int k"
    and lo: "(1 - unit_roundoff) ^ M * S \<le> T"
    and hi: "T \<le> (1 + unit_roundoff) ^ M * S"
    and bound: "400 * of_nat (Suc M) * S < 2 ^ 53"
  shows "Math_round (fmul T 100) = k"
proof (cases "S = 0")
  case True
  with lo hi have "T = 0" by simp
  moreover from True k have "k = 0" by simp
  moreover have "\<lfloor>(1 :: rat) / 2\<rfloor> = 0" by linarith
  ultimately show ?thesis by (simp add: fmul_def fl_def Math_round_def)
next
  case False
  let ?u = unit_roundoff
  define X where "X = S * 100"
  define a where "a = of_nat (Suc M) * ?u"
  define y where "y = fmul T 100"
  have u: "0 \<le> ?u" "?u \<le> 1" "0 \<le> 1 - ?u" "0 \<le> 1 + ?u"
    using unit_roundoff_bounds by simp_all
  from False S0 have "0 < S" by simp
  then have "0 < (of_int k :: rat)" using k by (metis mult_pos_pos zero_less_numeral)
  then have "1 \<le> k" by simp
  then have "(1 :: rat) \<le> of_int k" by (simp only: of_int_1_le_iff)
  then have X1: "1 \<le> X" by (simp add: X_def k)
  have a0: "0 \<le> a" using u by (simp add: a_def)
  have "a * X * 4 = (400 * of_nat (Suc M) * S) / 2 ^ 53"
    by (simp add: a_def X_def unit_roundoff_def)
  also have "\<dots> < 1" using bound by simp
  finally have aX: "a * X * 4 < 1" .
  have "a * 1 \<le> a * X" using X1 a0 by (rule mult_left_mono)
  with aX have a4: "a * 4 < 1" by simp
  have T0: "0 \<le> T"
    using lo S0 u by (meson mult_nonneg_nonneg order_trans zero_le_power)
  have T100: "0 \<le> T * 100" using T0 by simp
  have "y \<le> (1 + ?u) * (T * 100)" unfolding y_def fmul_def using T100 by (rule fl_upper)
  also have "\<dots> \<le> (1 + ?u) * ((1 + ?u) ^ M * S * 100)"
    using hi u by (intro mult_left_mono) simp_all
  also have "\<dots> = (1 + ?u) ^ Suc M * X" by (simp add: X_def)
  also have "\<dots> \<le> (1 + 2 * of_nat (Suc M) * ?u) * X"
  proof (rule mult_right_mono)
    show "(1 + ?u) ^ Suc M \<le> 1 + 2 * of_nat (Suc M) * ?u"
      using u(1) a4 by (intro pow_one_plus_le) (simp_all add: a_def)
    show "0 \<le> X" using X1 by simp
  qed
  also have "\<dots> = X + 2 * (a * X)" by (simp add: a_def algebra_simps)
  finally have upper: "y \<le> X + 2 * (a * X)" .
  have "X - a * X = (1 - of_nat (Suc M) * ?u) * X" by (simp add: a_def algebra_simps)
  also have "\<dots> \<le> (1 - ?u) ^ Suc M * X"
  proof (rule mult_right_mono)
    show "1 - of_nat (Suc M) * ?u \<le> (1 - ?u) ^ Suc M"
      using u(1,2) by (rule pow_one_minus_ge)
    show "0 \<le> X" using X1 by simp
  qed
  also have "\<dots> = (1 - ?u) * ((1 - ?u) ^ M * S * 100)" by (simp add: X_def)
  also have "\<dots> \<le> (1 - ?u) * (T * 100)"
    using lo u by (intro mult_left_mono) simp_all
  also have "\<dots> \<le> y" unfolding y_def fmul_def using T100 by (rule fl_lower)
  finally have lower: "X - a * X \<le> y" .
  have aX0: "0 \<le> a * X" using a0 X1 by simp
  have Xk: "X = of_int k" by (simp add: X_def k)
  have "of_int k \<le> y + 1 / 2" and "y + 1 / 2 < of_int k + 1"
    using upper lower aX aX0 unfolding Xk by linarith+
  then have "\<lfloor>y + 1 / 2\<rfloor> = k" by (intro floor_unique) simp_all
  then show ?thesis by (simp add: Math_round_def y_def)
qed

subsection \<open>Claims about the checkout validator\<close>

text \<open>C3, as stated, fails when an earlier entry stops the loop first: the second entry
  names a product that does not exist, but the first asks for more than the stock, and the
  answer is the stock conflict of the first.\<close>

theorem POST_not_found_counterexample:
  "single shop (CartItemPayload.product_id (entry ''unknown'' 1)) = None \<and>
   fst (POST (Some ''u1'') shop (ItemList [entry ''p1'' 10, entry ''unknown'' 1])) =
     Response 409 (Error (InsufficientStock ''Widget'' 5 10))"
  by code_simp

text \<open>C3, amended: in an authenticated request, a well-formed entry whose product does not
  exist, all of whose earlier entries are well-formed, existing and in stock, makes the
  handler answer 404 with the not-found message naming that id, at whatever position the
  entry stands; the answer carries no total, and no later entry is looked at.\<close>

theorem POST_not_found:
  assumes "\<forall>e \<in> set pre. acceptable db e"
    and "well_formed e"
    and "single db (CartItemPayload.product_id e) = None"
  shows "POST (Some u) db (ItemList (pre @ e # post)) =
           (Response 404 (Error (ProductNotFound (CartItemPayload.product_id e))),
            map CartItemPayload.product_id pre @ [CartItemPayload.product_id e])"
  using assms well_formed_valid [of e]
  by (simp add: POST_nonempty POST_loop_acceptable_prefix)

theorem POST_not_found_witness:
  "list_all (acceptable shop) [entry ''p1'' 2] \<and> well_formed (entry ''unknown'' 1) \<and>
   single shop (CartItemPayload.product_id (entry ''unknown'' 1)) = None \<and>
   POST (Some ''u1'') shop (ItemList ([entry ''p1'' 2] @ entry ''unknown'' 1 # [entry ''p1'' 1])) =
     (Response 404 (Error (ProductNotFound (JStr ''unknown''))), [JStr ''p1'', JStr ''unknown''])"
proof -
  have h1: "\<forall>e \<in> set [entry ''p1'' 2]. acceptable shop e" by code_simp
  have l: "list_all (acceptable shop) [entry ''p1'' 2]" by code_simp
  have h2: "well_formed (entry ''unknown'' 1)" by code_simp
  have h3: "single shop (CartItemPayload.product_id (entry ''unknown'' 1)) = None" by code_simp
  from POST_not_found [OF h1 h2 h3, of "''u1''" "[entry ''p1'' 1]"] l h2 h3 show ?thesis
    by (simp add: entry_def)
qed

text \<open>C4, as stated, fails when the entry that exceeds the stock is itself malformed:
  5.5 of a product with 5 in stock is more than the stock, but the sanity check comes
  first and the answer is 400 with the invalid-item message, not a stock conflict.\<close>

theorem POST_insufficient_stock_counterexample:
  "single shop (CartItemPayload.product_id (entry ''p1'' (11 / 2))) = Some p1_row \<and>
   of_int (stock p1_row) < num_of (CartItemPayload.quantity (entry ''p1'' (11 / 2))) \<and>
   fst (POST (Some ''u1'') shop (ItemList [entry ''p1'' (11 / 2)])) =
     Response 400 (Error InvalidItemInCart)"
  by code_simp

text \<open>C4, amended: in an authenticated request, a well-formed entry that asks for more
  than the current stock of its product, all of whose earlier entries are well-formed,
  existing and in stock, makes the handler answer 409 with the stock-conflict message
  naming the product, the available quantity and the requested quantity. The loop stops
  there: the answer and the queries made do not depend on the entries that follow, so later
  conflicts are not collected and nothing is accumulated for later entries.\<close>

theorem POST_insufficient_stock:
  assumes "\<forall>e \<in> set pre. acceptable db e"
    and "well_formed e"
    and "single db (CartItemPayload.product_id e) = Some row"
    and "of_int (stock row) < num_of (CartItemPayload.quantity e)"
  shows "POST (Some u) db (ItemList (pre @ e # post)) =
           (Response 409 (Error (InsufficientStock (Product.name row) (stock row)
                                   (num_of (CartItemPayload.quantity e)))),
            map CartItemPayload.product_id pre @ [CartItemPayload.product_id e])"
  using assms well_formed_valid [of e]
  by (simp add: POST_nonempty POST_loop_acceptable_prefix)

theorem POST_insufficient_stock_witness:
  "list_all (acceptable shop) [entry ''p1'' 2] \<and> well_formed (entry ''p1'' 10) \<and>
   single shop (CartItemPayload.product_id (entry ''p1'' 10)) = Some p1_row \<and>
   of_int (stock p1_row) < num_of (CartItemPayload.quantity (entry ''p1'' 10)) \<and>
   POST (Some ''u1'') shop (ItemList ([entry ''p1'' 2] @ entry ''p1'' 10 # [entry ''p1'' 7])) =
     (Response 409 (Error (InsufficientStock ''Widget'' 5 10)), [JStr ''p1'', JStr ''p1''])"
proof -
  have h1: "\<forall>e \<in> set [entry ''p1'' 2]. acceptable shop e" by code_simp
  have l: "list_all (acceptable shop) [entry ''p1'' 2]" by code_simp
  have h2: "well_formed (entry ''p1'' 10)" by code_simp
  have h3: "single shop (CartItemPayload.product_id (entry ''p1'' 10)) = Some p1_row"
    by (simp add: entry_def shop_def single_def)
  have h4: "of_int (stock p1_row) < num_of (CartItemPayload.quantity (entry ''p1'' 10))"
    by (simp add: entry_def p1_row_def)
  from POST_insufficient_stock [OF h1 h2 h3 h4, of "''u1''" "[entry ''p1'' 7]"] l h2 h3 h4
  show ?thesis
    by (simp add: entry_def p1_row_def)
qed

text \<open>C5, as stated, fails when the malformed entry is not the first: the entries before
  it have been looked up by then. Here the second entry has quantity 0, and the product
  collection has been queried for the first entry before the request is rejected.\<close>

theorem POST_malformed_after_query_counterexample:
  "malformed (entry ''p1'' 0) \<and>
   POST (Some ''u1'') shop (ItemList [entry ''p1'' 1, entry ''p1'' 0]) =
     (Response 400 (Error InvalidItemInCart), [JStr ''p1''])"
  by code_simp

text \<open>C5, amended: a request whose list contains a malformed entry is rejected with an
  error, and the product collection is never queried for the malformed entry or for any
  entry after it: the queries made are for an initial segment of the entries before it,
  so there is none when the malformed entry comes first.\<close>

theorem POST_malformed_queries:
  assumes "malformed bad"
  shows "prefix (snd (POST user db (ItemList (pre @ bad # post))))
                (map CartItemPayload.product_id pre)
         \<and> (\<exists>st m. fst (POST user db (ItemList (pre @ bad # post))) = Response st (Error m))
         \<and> snd (POST user db (ItemList (bad # post))) = []"
  using POST_invalid_item [OF malformed_invalid [OF assms]]
    POST_invalid_item [OF malformed_invalid [OF assms], of user db "[]" post]
  by simp

theorem POST_malformed_queries_witness:
  "malformed (entry ''p1'' 0) \<and>
   prefix (snd (POST (Some ''u1'') shop (ItemList ([entry ''p1'' 1] @ entry ''p1'' 0 # [entry ''zz'' 1]))))
          [JStr ''p1''] \<and>
   snd (POST (Some ''u1'') shop (ItemList (entry ''p1'' 0 # [entry ''zz'' 1]))) = []"
proof -
  have h: "malformed (entry ''p1'' 0)" by code_simp
  from POST_malformed_queries [OF h, of "Some ''u1''" shop "[entry ''p1'' 1]" "[entry ''zz'' 1]"] h
  show ?thesis by (simp add: entry_def)
qed

text \<open>C7: without an authenticated identity the handler answers 401 with the
  authentication-required message and makes no query, whatever the body and the table.\<close>

theorem POST_unauthenticated:
  "POST None db body = (Response 401 (Error AuthenticationRequired), [])"
  by (simp add: POST_def)

text \<open>C6, as stated, fails when an earlier entry stops the loop first: the second entry
  has quantity 0, but the first names a product that does not exist, and the answer is 404,
  not 400.\<close>

theorem POST_malformed_status_counterexample:
  "malformed (entry ''p1'' 0) \<and>
   fst (POST (Some ''u1'') shop (ItemList [entry ''unknown'' 1, entry ''p1'' 0])) =
     Response 404 (Error (ProductNotFound (JStr ''unknown'')))"
  by code_simp

text \<open>C6, amended: an entry with a zero, negative or non-integer quantity, or a missing or
  empty product reference, makes the whole request fail: the answer is never a total. In
  an authenticated request in which every earlier entry is well-formed, existing and in
  stock, the answer is 400 with the invalid-item message.\<close>

theorem POST_malformed_rejected:
  assumes "malformed bad"
  shows "(\<forall>st t. fst (POST user db (ItemList (pre @ bad # post))) \<noteq> Response st (Valid t))
         \<and> ((\<forall>e \<in> set pre. acceptable db e) \<longrightarrow>
              fst (POST (Some u) db (ItemList (pre @ bad # post))) =
                Response 400 (Error InvalidItemInCart))"
proof
  from POST_invalid_item [OF malformed_invalid [OF assms], of user db pre post]
  show "\<forall>st t. fst (POST user db (ItemList (pre @ bad # post))) \<noteq> Response st (Valid t)"
    by auto
  show "(\<forall>e \<in> set pre. acceptable db e) \<longrightarrow>
          fst (POST (Some u) db (ItemList (pre @ bad # post))) =
            Response 400 (Error InvalidItemInCart)"
    using malformed_invalid [OF assms]
    by (simp add: POST_nonempty POST_loop_acceptable_prefix)
qed

theorem POST_malformed_rejected_witness:
  "malformed (entry ''p1'' (5 / 2)) \<and> list_all (acceptable shop) [entry ''p1'' 2] \<and>
   fst (POST (Some ''u1'') shop (ItemList ([entry ''p1'' 2] @ entry ''p1'' (5 / 2) # []))) =
     Response 400 (Error InvalidItemInCart)"
proof -
  have h1: "malformed (entry ''p1'' (5 / 2))" by code_simp
  have h2: "\<forall>e \<in> set [entry ''p1'' 2]. acceptable shop e" by code_simp
  have l: "list_all (acceptable shop) [entry ''p1'' 2]" by code_simp
  from POST_malformed_rejected [OF h1, of "Some ''u1''" shop "[entry ''p1'' 2]" "[]" "''u1''"] h1 h2 l
  show ?thesis by simp
qed

subsection \<open>Claims about the returned total\<close>

text \<open>C1, as stated, fails in two ways. On the empty list every entry is acceptable, and
  the handler answers 400 with the cart-is-empty message instead of a total. On a large
  total the double arithmetic is not exact: 90439259 of the product at 278030.03 cost
  25144829892947.77, and the handler returns the double 25144829892947.78125, the one
  nearest to 25144829892947.78.\<close>

theorem POST_valid_total_counterexample:
  "list_all (acceptable shop) [] \<and>
   fst (POST (Some ''u1'') shop (ItemList [])) = Response 400 (Error CartIsEmpty) \<and>
   list_all (acceptable warehouse) [entry ''p9'' 90439259] \<and>
   server_sum warehouse [entry ''p9'' 90439259] = 2514482989294777 / 100 \<and>
   fst (POST (Some ''u1'') warehouse (ItemList [entry ''p9'' 90439259])) =
     Response 200 (Valid (804634556574329 / 32))"
  by code_simp

text \<open>C1, amended: for an authenticated request with a non-empty list of \<open>n\<close> entries,
  each of them well-formed, referring to an existing product and asking for at most its
  stock, over a table that meets the schema (prices non-negative with two decimals, stocks
  non-negative), and with an exact sum \<open>S\<close> of stored price times requested quantity so
  small that \<open>400 (n + 3) S < 2^53\<close>, the handler answers 200 with \<open>valid: true\<close> and
  \<open>serverTotal\<close> is the double nearest to \<open>S\<close>, which has two decimals. Each entry's
  product has been queried once, in order.\<close>

theorem POST_valid_total:
  assumes "xs \<noteq> []"
    and "\<forall>e \<in> set xs. acceptable db e"
    and "products_checks db"
    and "products_numeric db"
    and "400 * of_nat (length xs + 3) * server_sum db xs < 2 ^ 53"
  shows "POST (Some u) db (ItemList xs) =
           (Response 200 (Valid (fl (server_sum db xs))), map CartItemPayload.product_id xs)
         \<and> of_int \<lfloor>server_sum db xs * 100\<rfloor> = server_sum db xs * 100"
proof -
  let ?S = "server_sum db xs" and ?T = "double_total db xs 0"
  from assms(2) have ok: "\<forall>e \<in> set xs. passes db e" by (simp add: acceptable_passes)
  from server_sum_cents [OF assms(4) ok] obtain k :: int where k: "?S * 100 = of_int k"
    by blast
  have S0: "0 \<le> ?S" using assms(3) ok by (rule server_sum_nonneg)
  from double_total_bounds [OF assms(3) ok, of 0 2 0]
  have lo: "(1 - unit_roundoff) ^ (2 + length xs) * ?S \<le> ?T"
    and hi: "?T \<le> (1 + unit_roundoff) ^ (2 + length xs) * ?S"
    by simp_all
  have b: "400 * of_nat (Suc (2 + length xs)) * ?S < 2 ^ 53"
    using assms(5) by (simp add: algebra_simps)
  from Math_round_exact [OF S0 k lo hi b] have r: "Math_round (fmul ?T 100) = k" .
  have "of_int k / 100 = ?S" using k by simp
  then have t: "fdiv (of_int (Math_round (fmul ?T 100))) 100 = fl ?S"
    by (simp add: r fdiv_def)
  have "POST (Some u) db (ItemList xs) =
          (Response 200 (Valid (fdiv (of_int (Math_round (fmul ?T 100))) 100)),
           map CartItemPayload.product_id xs)"
    using assms(1) ok by (simp add: POST_nonempty POST_loop_all_pass)
  moreover have "of_int \<lfloor>?S * 100\<rfloor> = ?S * 100" by (simp add: k)
  ultimately show ?thesis by (simp only: t)
qed

theorem POST_valid_total_witness:
  "[entry ''c1'' 3, entry ''c2'' 2] \<noteq> []
   \<and> list_all (acceptable kiosk) [entry ''c1'' 3, entry ''c2'' 2]
   \<and> products_checks kiosk \<and> products_numeric kiosk
   \<and> 400 * of_nat (length [entry ''c1'' 3, entry ''c2'' 2] + 3)
        * server_sum kiosk [entry ''c1'' 3, entry ''c2'' 2] < 2 ^ 53
   \<and> server_sum kiosk [entry ''c1'' 3, entry ''c2'' 2] = 1007 / 25
   \<and> double_total kiosk [entry ''c1'' 3, entry ''c2'' 2] 0 = 5668906030952611 / 140737488355328
   \<and> POST (Some ''u1'') kiosk (ItemList [entry ''c1'' 3, entry ''c2'' 2]) =
       (Response 200 (Valid (1417226507738153 / 35184372088832)), [JStr ''c1'', JStr ''c2''])
   \<and> fl (1007 / 25) = 1417226507738153 / 35184372088832"
proof -
  let ?xs = "[entry ''c1'' 3, entry ''c2'' 2]"
  have h1: "?xs \<noteq> []" by simp
  have h2: "\<forall>e \<in> set ?xs. acceptable kiosk e" by code_simp
  have l: "list_all (acceptable kiosk) ?xs" by code_simp
  have ran: "ran kiosk = {c2_row, c1_row}"
    by (simp add: kiosk_def)
  have h3: "products_checks kiosk"
    by (simp add: products_checks_def ran c1_row_def c2_row_def)
  have h4: "products_numeric kiosk"
    by (simp add: products_numeric_def ran c1_row_def c2_row_def)
  have s: "server_sum kiosk ?xs = 1007 / 25" by code_simp
  have h5: "400 * of_nat (length ?xs + 3) * server_sum kiosk ?xs < 2 ^ 53"
    by (simp add: s)
  have d: "double_total kiosk ?xs 0 = 5668906030952611 / 140737488355328" by code_simp
  have f: "fl (1007 / 25) = 1417226507738153 / 35184372088832" by code_simp
  have q: "map CartItemPayload.product_id ?xs = [JStr ''c1'', JStr ''c2'']"
    by (simp add: entry_def)
  from POST_valid_total [OF h1 h2 h3 h4 h5, of "''u1''"]
  have "POST (Some ''u1'') kiosk (ItemList ?xs) =
          (Response 200 (Valid (1417226507738153 / 35184372088832)), [JStr ''c1'', JStr ''c2''])"
    by (simp only: s f q)
  with h1 l h3 h4 h5 s d f show ?thesis by (intro conjI)
qed




subsection \<open>Claims about the cart reducer\<close>

lemma find_Some_ex: "(\<exists>e. find P xs = Some e) \<longleftrightarrow> (\<exists>x \<in> set xs. P x)"
  using find_None_iff [of P xs] by auto

text \<open>C9: an add whose product already has an entry changes only the entries of that
  product, to the old quantity plus the added one, capped at the stock the added product
  carries, and creates no entry; otherwise it appends one entry with the added quantity
  capped at that stock. Either way no entry of that product is left above the stock. In
  particular, adding 5 of a product with stock 3 to the empty cart gives one entry with
  quantity 3. The added quantity is 1 when none is given.\<close>

theorem reducer_ADD_merges_and_clamps:
  "(if \<exists>i \<in> set (items s). id_prod (product i) = id_prod p
    then items (reducer s (ADD p q)) =
           map (\<lambda>i. if id_prod (product i) = id_prod p
                     then i\<lparr>CartItem.quantity :=
                              min (CartItem.quantity i + (case q of None \<Rightarrow> 1 | Some n \<Rightarrow> n))
                                  (of_int (stock p))\<rparr>
                     else i)
               (items s)
    else items (reducer s (ADD p q)) =
           items s @ [\<lparr>product = p,
                       CartItem.quantity = min (case q of None \<Rightarrow> 1 | Some n \<Rightarrow> n)
                                               (of_int (stock p))\<rparr>])
   \<and> (\<forall>i \<in> set (items (reducer s (ADD p q))).
         id_prod (product i) = id_prod p \<longrightarrow> CartItem.quantity i \<le> of_int (stock p))
   \<and> (stock p = 3 \<longrightarrow>
        reducer \<lparr>items = []\<rparr> (ADD p (Some 5)) = \<lparr>items = [\<lparr>product = p, CartItem.quantity = 3\<rparr>]\<rparr>)"
proof -
  let ?add = "case q of None \<Rightarrow> 1 | Some n \<Rightarrow> n"
  let ?same = "\<lambda>i. id_prod (product i) = id_prod p"
  let ?merged = "map (\<lambda>i. if ?same i
                           then i\<lparr>CartItem.quantity :=
                                    min (CartItem.quantity i + ?add) (of_int (stock p))\<rparr>
                           else i)
                     (items s)"
  let ?appended = "items s @ [\<lparr>product = p, CartItem.quantity = min ?add (of_int (stock p))\<rparr>]"
  have example: "stock p = 3 \<longrightarrow>
      reducer \<lparr>items = []\<rparr> (ADD p (Some 5)) = \<lparr>items = [\<lparr>product = p, CartItem.quantity = 3\<rparr>]\<rparr>"
    by simp
  have shape: "if \<exists>i \<in> set (items s). ?same i
               then items (reducer s (ADD p q)) = ?merged
               else items (reducer s (ADD p q)) = ?appended"
  proof (cases "find ?same (items s)")
    case None
    then have "\<not> (\<exists>i \<in> set (items s). ?same i)"
      by (simp add: find_None_iff)
    moreover have "items (reducer s (ADD p q)) = ?appended"
      using None by simp
    ultimately show ?thesis by (simp only: if_False)
  next
    case (Some e)
    then have "\<exists>i \<in> set (items s). ?same i"
      using find_Some_ex [of ?same "items s"] by blast
    moreover have "items (reducer s (ADD p q)) = ?merged"
      using Some by simp
    ultimately show ?thesis by (simp only: if_True)
  qed
  have clamped: "\<forall>i \<in> set (items (reducer s (ADD p q))).
                   ?same i \<longrightarrow> CartItem.quantity i \<le> of_int (stock p)"
  proof (cases "\<exists>i \<in> set (items s). ?same i")
    case True
    with shape have "items (reducer s (ADD p q)) = ?merged" by (simp only: if_True)
    then show ?thesis by (auto split: if_splits)
  next
    case False
    with shape have "items (reducer s (ADD p q)) = ?appended" by (simp only: if_False)
    with False show ?thesis by auto
  qed
  show ?thesis by (intro conjI shape clamped example)
qed

theorem reducer_ADD_merges_and_clamps_witness:
  "(\<exists>i \<in> set (items \<lparr>items = [\<lparr>product = p1_row, CartItem.quantity = 4\<rparr>]\<rparr>).
       id_prod (product i) = id_prod p1_row) \<and>
   items (reducer \<lparr>items = [\<lparr>product = p1_row, CartItem.quantity = 4\<rparr>]\<rparr> (ADD p1_row (Some 3)))
     = [\<lparr>product = p1_row, CartItem.quantity = 5\<rparr>] \<and>
   stock (p1_row\<lparr>stock := 3\<rparr>) = 3 \<and>
   reducer \<lparr>items = []\<rparr> (ADD (p1_row\<lparr>stock := 3\<rparr>) (Some 5))
     = \<lparr>items = [\<lparr>product = p1_row\<lparr>stock := 3\<rparr>, CartItem.quantity = 3\<rparr>]\<rparr>"
proof -
  have h1: "\<exists>i \<in> set (items \<lparr>items = [\<lparr>product = p1_row, CartItem.quantity = 4\<rparr>]\<rparr>).
              id_prod (product i) = id_prod p1_row" by simp
  have h2: "stock (p1_row\<lparr>stock := 3\<rparr>) = 3" by simp
  from reducer_ADD_merges_and_clamps
         [of "\<lparr>items = [\<lparr>product = p1_row, CartItem.quantity = 4\<rparr>]\<rparr>" p1_row "Some 3"]
       reducer_ADD_merges_and_clamps [of "\<lparr>items = []\<rparr>" "p1_row\<lparr>stock := 3\<rparr>" "Some 5"]
       h1 h2
  show ?thesis by (simp add: p1_row_def)
qed

text \<open>C10: adding a product whose stock is 0 and that has no entry yet, with a
  non-negative quantity (or none), appends an entry with quantity 0; so the add operation
  alone reaches a cart with a quantity-0 entry from the empty cart. Set-quantity, by
  contrast, leaves no entry of the product when the new quantity is at most 0.\<close>

theorem reducer_ADD_zero_stock:
  "(stock p = 0 \<and> (\<forall>i \<in> set (items s). id_prod (product i) \<noteq> id_prod p)
      \<and> 0 \<le> (case q of None \<Rightarrow> 1 | Some n \<Rightarrow> n) \<longrightarrow>
      reducer s (ADD p q) = \<lparr>items = items s @ [\<lparr>product = p, CartItem.quantity = 0\<rparr>]\<rparr>)
   \<and> (n \<le> 0 \<longrightarrow>
        (\<forall>i \<in> set (items (reducer s (UPDATE_QTY pid n))). id_prod (product i) \<noteq> pid))"
proof
  show "stock p = 0 \<and> (\<forall>i \<in> set (items s). id_prod (product i) \<noteq> id_prod p)
          \<and> 0 \<le> (case q of None \<Rightarrow> 1 | Some n \<Rightarrow> n) \<longrightarrow>
        reducer s (ADD p q) = \<lparr>items = items s @ [\<lparr>product = p, CartItem.quantity = 0\<rparr>]\<rparr>"
  proof (intro impI, elim conjE)
    assume z: "stock p = 0"
      and absent: "\<forall>i \<in> set (items s). id_prod (product i) \<noteq> id_prod p"
      and nn: "0 \<le> (case q of None \<Rightarrow> 1 | Some n \<Rightarrow> n)"
    from absent have "find (\<lambda>i. id_prod (product i) = id_prod p) (items s) = None"
      by (simp add: find_None_iff)
    with z nn show "reducer s (ADD p q) =
                      \<lparr>items = items s @ [\<lparr>product = p, CartItem.quantity = 0\<rparr>]\<rparr>"
      by simp
  qed
  show "n \<le> 0 \<longrightarrow>
        (\<forall>i \<in> set (items (reducer s (UPDATE_QTY pid n))). id_prod (product i) \<noteq> pid)"
    by simp
qed

theorem reducer_ADD_zero_stock_witness:
  "stock sold_out = 0
   \<and> list_all (\<lambda>i. id_prod (product i) \<noteq> id_prod sold_out) (items \<lparr>items = []\<rparr>)
   \<and> (0 :: rat) \<le> (case None of None \<Rightarrow> 1 | Some n \<Rightarrow> n)
   \<and> reducer \<lparr>items = []\<rparr> (ADD sold_out None) =
       \<lparr>items = [\<lparr>product = sold_out, CartItem.quantity = 0\<rparr>]\<rparr>
   \<and> (0 :: rat) \<le> 0
   \<and> list_all (\<lambda>i. id_prod (product i) \<noteq> ''p2'')
         (items (reducer \<lparr>items = [\<lparr>product = sold_out, CartItem.quantity = 0\<rparr>]\<rparr>
                         (UPDATE_QTY ''p2'' 0)))"
proof -
  have h1: "stock sold_out = 0" by (simp add: sold_out_def)
  have h2: "\<forall>i \<in> set (items \<lparr>items = []\<rparr>). id_prod (product i) \<noteq> id_prod sold_out"
    by simp
  have h3: "(0 :: rat) \<le> (case None of None \<Rightarrow> 1 | Some n \<Rightarrow> n)" by simp
  have h4: "(0 :: rat) \<le> 0" by simp
  from reducer_ADD_zero_stock [of sold_out "\<lparr>items = []\<rparr>" None 0 "''p2''"] h1 h2 h3
  have "reducer \<lparr>items = []\<rparr> (ADD sold_out None) =
          \<lparr>items = items \<lparr>items = []\<rparr> @ [\<lparr>product = sold_out, CartItem.quantity = 0\<rparr>]\<rparr>"
    by blast
  then have a: "reducer \<lparr>items = []\<rparr> (ADD sold_out None) =
                  \<lparr>items = [\<lparr>product = sold_out, CartItem.quantity = 0\<rparr>]\<rparr>"
    by (simp only: State.select_convs append_Nil)
  from reducer_ADD_zero_stock
         [of sold_out "\<lparr>items = [\<lparr>product = sold_out, CartItem.quantity = 0\<rparr>]\<rparr>" None 0 "''p2''"]
       h4
  have "\<forall>i \<in> set (items (reducer \<lparr>items = [\<lparr>product = sold_out, CartItem.quantity = 0\<rparr>]\<rparr>
                                   (UPDATE_QTY ''p2'' 0))).
          id_prod (product i) \<noteq> ''p2''"
    by blast
  then have b: "list_all (\<lambda>i. id_prod (product i) \<noteq> ''p2'')
                  (items (reducer \<lparr>items = [\<lparr>product = sold_out, CartItem.quantity = 0\<rparr>]\<rparr>
                                  (UPDATE_QTY ''p2'' 0)))"
    by (simp only: list_all_iff)
  have c: "list_all (\<lambda>i. id_prod (product i) \<noteq> id_prod sold_out) (items \<lparr>items = []\<rparr>)"
    by simp
  show ?thesis by (intro conjI h1 c h3 a h4 b)
qed

subsection \<open>Claims about the order writer\<close>

text \<open>What the order writer stores, in general: the total of a created order is the
  validator's total over the stored prices, and the unit prices of its line items are the
  prices of the cart's product snapshots.\<close>

lemma handleSubmit_order_total:
  assumes "order (handleSubmit address user db cart new_order_id items_saved) = Some created"
  shows "total_amount created =
           fdiv (of_int (Math_round (fmul (double_total db
             (map (\<lambda>i. \<lparr>CartItemPayload.product_id = JStr (id_prod (product i)),
                         CartItemPayload.quantity = JNum (CartItem.quantity i)\<rparr>) cart) 0) 100)))
             100"
proof -
  let ?xs = "map (\<lambda>i. \<lparr>CartItemPayload.product_id = JStr (id_prod (product i)),
                         CartItemPayload.quantity = JNum (CartItem.quantity i)\<rparr>) cart"
  obtain st json where r: "fst (POST user db (ItemList ?xs)) = Response st json"
    by (cases "fst (POST user db (ItemList ?xs))")
  from assms r obtain t where j: "json = Valid t" and tot: "total_amount created = t"
    by (cases json; cases user; cases new_order_id; cases items_saved)
       (auto simp: handleSubmit_def split: if_splits)
  from POST_Valid [of user db ?xs st t] r j tot show ?thesis by simp
qed

lemma handleSubmit_line_items:
  "order_items_row.price ` set (order_items (handleSubmit address user db cart new_order_id items_saved))
     \<subseteq> (\<lambda>i. Product.price (product i)) ` set cart"
  by (auto simp: handleSubmit_def Let_def split: response.splits payload.splits option.splits)

text \<open>C2 fails on the code: the order's total is computed from the stored prices, but the
  unit price recorded in each line item is the price of the cart's product snapshot. With
  a snapshot taken at 90.00 and a stored price of 100.00, the order is created with total
  100.00 over one line item of 1 at 90.00.\<close>

theorem handleSubmit_snapshot_price:
  "handleSubmit jane (Some ''u1'') shop stale_cart (Some ''o1'') True =
     \<lparr>error = None,
      order = Some \<lparr>id_order = ''o1'', user_id = ''u1'', total_amount = 100, status = ''pending''\<rparr>,
      order_items = [\<lparr>order_id = ''o1'', order_items_row.product_id = ''p1'',
                      order_items_row.quantity = 1, order_items_row.price = 90\<rparr>]\<rparr>
   \<and> line_items_sum [\<lparr>order_id = ''o1'', order_items_row.product_id = ''p1'',
                       order_items_row.quantity = 1, order_items_row.price = 90\<rparr>] = 90"
  by code_simp

end
